theory Spec2Isabelle
  imports Complex_Main "HOL-Library.Word" "HOL-Library.Multiset"
begin

section \<open>Data model\<close>

text \<open>
  The development follows \<^verbatim>\<open>src/src/BenchmarkController.tsx\<close>. A JavaScript string is
  a sequence of UTF-16 code units. A JavaScript \<^verbatim>\<open>number\<close> that counts something is
  a natural number or an integer here, and a time stamp of \<^verbatim>\<open>performance.now()\<close> is a
  real number: the rounding of the double format (integers beyond \<open>2^53\<close>) is outside
  the model. The range of \<^verbatim>\<open>Date\<close> is inside it.
\<close>

type_synonym js_string = "16 word list"

definition js :: "string \<Rightarrow> js_string" where
  "js s = map (\<lambda>c. of_nat (of_char c)) s"

section \<open>The state of \<^verbatim>\<open>BenchmarkController\<close>\<close>

text \<open>
  The type of \<^verbatim>\<open>activeBenchmarkRef\<close> is \<^verbatim>\<open>"native" | "intlayer" | null\<close>: the two
  tags are a datatype and \<^verbatim>\<open>null\<close> is \<open>None\<close>. The record holds the six
  \<^verbatim>\<open>useState\<close> cells and the two \<^verbatim>\<open>useRef\<close> cells of the component.
\<close>

datatype benchmark = Native | Intlayer

record controller =
  nativeLocale :: js_string
  intlayerLocale :: js_string
  nativeRenderKey :: nat
  intlayerRenderKey :: nat
  nativeTime :: real
  intlayerTime :: real
  startTimeRef :: real
  activeBenchmarkRef :: "benchmark option"

definition initial :: controller where
  "initial =
     \<lparr> nativeLocale = js ''en'', intlayerLocale = js ''en'',
       nativeRenderKey = 0, intlayerRenderKey = 0,
       nativeTime = 0, intlayerTime = 0,
       startTimeRef = 0, activeBenchmarkRef = None \<rparr>"

subsection \<open>The benchmark controller\<close>

text \<open>
  \<^verbatim>\<open>useLayoutEffect\<close> has no dependency list, so its callback runs after every commit.
  \<open>now\<close> is what \<^verbatim>\<open>performance.now()\<close> returns inside the callback. A state setter
  is applied at once: the value it stores is the one the next render shows.
\<close>

definition layoutEffect :: "real \<Rightarrow> controller \<Rightarrow> controller" where
  "layoutEffect now s =
     (if startTimeRef s > 0 \<and> activeBenchmarkRef s \<noteq> None then
        (let duration = now - startTimeRef s;
             s1 = (if activeBenchmarkRef s = Some Native
                   then s\<lparr>nativeTime := duration\<rparr>
                   else s\<lparr>intlayerTime := duration\<rparr>)
         in s1\<lparr>startTimeRef := 0, activeBenchmarkRef := None\<rparr>)
      else s)"

text \<open>
  \<^verbatim>\<open>triggerSwitch\<close> reads \<^verbatim>\<open>Math.random()\<close> (here \<open>random\<close>) and then
  \<^verbatim>\<open>performance.now()\<close> (here \<open>now\<close>). The render keys are bumped with the updater
  \<^verbatim>\<open>(k) => k + 1\<close>, so every call counts even when several are batched.
\<close>

definition triggerSwitch :: "benchmark \<Rightarrow> real \<Rightarrow> real \<Rightarrow> controller \<Rightarrow> controller" where
  "triggerSwitch type random now s =
     (let nextLocale = (if random > 0.5 then js ''fr'' else js ''de'');
          s1 = s\<lparr>activeBenchmarkRef := Some type, startTimeRef := now\<rparr>
      in if type = Native
         then s1\<lparr>nativeLocale := nextLocale, nativeRenderKey := nativeRenderKey s1 + 1\<rparr>
         else s1\<lparr>intlayerLocale := nextLocale, intlayerRenderKey := intlayerRenderKey s1 + 1\<rparr>)"

text \<open>
  What happens to the component over time is a sequence of events: a click on one of the
  two buttons, with the two readings the handler takes, or a commit of the framework,
  with the reading the layout effect takes.
\<close>

datatype event = Trigger benchmark real real | Commit real

fun step :: "controller \<Rightarrow> event \<Rightarrow> controller" where
  "step s (Trigger type random now) = triggerSwitch type random now s"
| "step s (Commit now) = layoutEffect now s"

definition run :: "event list \<Rightarrow> controller \<Rightarrow> controller" where
  "run es s = foldl step s es"

text \<open>The per-variant view of the state: generation, display locale, last duration.\<close>

fun generation :: "benchmark \<Rightarrow> controller \<Rightarrow> nat" where
  "generation Native s = nativeRenderKey s"
| "generation Intlayer s = intlayerRenderKey s"

fun displayLocale :: "benchmark \<Rightarrow> controller \<Rightarrow> js_string" where
  "displayLocale Native s = nativeLocale s"
| "displayLocale Intlayer s = intlayerLocale s"

fun lastDuration :: "benchmark \<Rightarrow> controller \<Rightarrow> real" where
  "lastDuration Native s = nativeTime s"
| "lastDuration Intlayer s = intlayerTime s"

fun triggers :: "benchmark \<Rightarrow> event list \<Rightarrow> nat" where
  "triggers v [] = 0"
| "triggers v (Trigger type random now # es) = (if type = v then 1 else 0) + triggers v es"
| "triggers v (Commit now # es) = triggers v es"

section \<open>The date of a card\<close>

text \<open>
  \<^verbatim>\<open>LocalCard\<close> takes \<^verbatim>\<open>new Date()\<close>, reads its day of the month and sets it again,
  shifted. \<^verbatim>\<open>Date\<close> is a built-in of the language: the definitions below follow the
  abstract operations of ECMA-262 (\<^verbatim>\<open>Day\<close>, \<^verbatim>\<open>YearFromTime\<close>, \<^verbatim>\<open>MonthFromTime\<close>,
  \<^verbatim>\<open>DateFromTime\<close>, \<^verbatim>\<open>MakeDay\<close>, \<^verbatim>\<open>MakeDate\<close>, \<^verbatim>\<open>LocalTime\<close>, \<^verbatim>\<open>UTC\<close>,
  \<^verbatim>\<open>TimeClip\<close>). A time value is a number of milliseconds since the epoch, in UTC;
  \<open>None\<close> is the \<^verbatim>\<open>NaN\<close> of an invalid date. \<^verbatim>\<open>YearFromTime\<close> is the largest year
  that starts no later than the day; it is searched in a bracket around the estimates
  with 365 and 366 days a year.
\<close>

definition msPerDay :: int where
  "msPerDay = 86400000"

definition Day :: "int \<Rightarrow> int" where
  "Day t = t div msPerDay"

definition TimeWithinDay :: "int \<Rightarrow> int" where
  "TimeWithinDay t = t mod msPerDay"

definition DaysInYear :: "int \<Rightarrow> int" where
  "DaysInYear y =
     (if y mod 4 \<noteq> 0 then 365 else if y mod 100 \<noteq> 0 then 366
      else if y mod 400 \<noteq> 0 then 365 else 366)"

definition DayFromYear :: "int \<Rightarrow> int" where
  "DayFromYear y =
     365 * (y - 1970) + (y - 1969) div 4 - (y - 1901) div 100 + (y - 1601) div 400"

definition YearFromTime :: "int \<Rightarrow> int" where
  "YearFromTime t =
     (let d = Day t;
          lo = 1970 + min (d div 365) (d div 366) - 1;
          hi = 1970 + max (d div 365) (d div 366) + 1
      in fold (\<lambda>y best. if DayFromYear y \<le> d then y else best) [lo..hi] lo)"

definition InLeapYear :: "int \<Rightarrow> int" where
  "InLeapYear t = (if DaysInYear (YearFromTime t) = 366 then 1 else 0)"

definition DayWithinYear :: "int \<Rightarrow> int" where
  "DayWithinYear t = Day t - DayFromYear (YearFromTime t)"

definition MonthFromTime :: "int \<Rightarrow> int" where
  "MonthFromTime t =
     (let d = DayWithinYear t; leap = InLeapYear t in
      if d < 31 then 0
      else if d < 59 + leap then 1
      else if d < 90 + leap then 2
      else if d < 120 + leap then 3
      else if d < 151 + leap then 4
      else if d < 181 + leap then 5
      else if d < 212 + leap then 6
      else if d < 243 + leap then 7
      else if d < 273 + leap then 8
      else if d < 304 + leap then 9
      else if d < 334 + leap then 10
      else 11)"

definition DateFromTime :: "int \<Rightarrow> int" where
  "DateFromTime t =
     (let d = DayWithinYear t; leap = InLeapYear t; m = MonthFromTime t in
      if m = 0 then d + 1
      else if m = 1 then d - 30
      else if m = 2 then d - 58 - leap
      else if m = 3 then d - 89 - leap
      else if m = 4 then d - 119 - leap
      else if m = 5 then d - 150 - leap
      else if m = 6 then d - 180 - leap
      else if m = 7 then d - 211 - leap
      else if m = 8 then d - 242 - leap
      else if m = 9 then d - 272 - leap
      else if m = 10 then d - 303 - leap
      else d - 333 - leap)"

definition MakeDay :: "int \<Rightarrow> int \<Rightarrow> int \<Rightarrow> int" where
  "MakeDay year month date =
     (let ym = year + month div 12;
          mn = month mod 12;
          leap = (if DaysInYear ym = 366 then 1 else 0);
          first = DayFromYear ym +
            (if mn = 0 then 0
             else if mn = 1 then 31
             else if mn = 2 then 59 + leap
             else if mn = 3 then 90 + leap
             else if mn = 4 then 120 + leap
             else if mn = 5 then 151 + leap
             else if mn = 6 then 181 + leap
             else if mn = 7 then 212 + leap
             else if mn = 8 then 243 + leap
             else if mn = 9 then 273 + leap
             else if mn = 10 then 304 + leap
             else 334 + leap)
      in first + date - 1)"

definition MakeDate :: "int \<Rightarrow> int \<Rightarrow> int" where
  "MakeDate day time = day * msPerDay + time"

text \<open>
  The time zone of the host is a parameter: \<open>LocalTZA t isUTC\<close> is the offset of local
  time from UTC in milliseconds, at the UTC time value \<open>t\<close> when \<open>isUTC\<close> holds and at
  the local time value \<open>t\<close> otherwise, as in ECMA-262.
\<close>

type_synonym time_zone = "int \<Rightarrow> bool \<Rightarrow> int"

definition LocalTime :: "time_zone \<Rightarrow> int \<Rightarrow> int" where
  "LocalTime LocalTZA t = t + LocalTZA t True"

definition UTC :: "time_zone \<Rightarrow> int \<Rightarrow> int" where
  "UTC LocalTZA t = t - LocalTZA t False"

definition TimeClip :: "int \<Rightarrow> int option" where
  "TimeClip time = (if \<bar>time\<bar> > 8640000000000000 then None else Some time)"

text \<open>
  \<^verbatim>\<open>Date.prototype.getDate\<close> and \<^verbatim>\<open>Date.prototype.setDate\<close> on a date object whose
  time value \<open>t\<close> is valid, as that of \<^verbatim>\<open>new Date()\<close> is; the second returns the new
  time value of the object.
\<close>

definition getDate :: "time_zone \<Rightarrow> int \<Rightarrow> int" where
  "getDate LocalTZA t = DateFromTime (LocalTime LocalTZA t)"

definition setDate :: "time_zone \<Rightarrow> int \<Rightarrow> int \<Rightarrow> int option" where
  "setDate LocalTZA t date =
     (let tl = LocalTime LocalTZA t;
          newDate = MakeDate (MakeDay (YearFromTime tl) (MonthFromTime tl) date) (TimeWithinDay tl)
      in TimeClip (UTC LocalTZA newDate))"

text \<open>
  The body of \<^verbatim>\<open>LocalCard\<close>: \<^verbatim>\<open>locale.split("")\<close> gives the code units one by one,
  \<^verbatim>\<open>charCodeAt(0)\<close> is the number of a code unit, and \<^verbatim>\<open>reduce\<close> folds from the left
  starting at \<open>0\<close>. \<open>now\<close> is the time value of \<^verbatim>\<open>new Date()\<close>; the result is the time
  value of the date that is handed to the formatter.
\<close>

definition uniqueOffset :: "js_string \<Rightarrow> nat" where
  "uniqueOffset locale = foldl (\<lambda>acc char. acc + unat char) 0 locale"

definition dynamicDate :: "time_zone \<Rightarrow> int \<Rightarrow> js_string \<Rightarrow> nat \<Rightarrow> int option" where
  "dynamicDate LocalTZA now locale renderKey =
     setDate LocalTZA now
       (getDate LocalTZA now + int renderKey * 365 + int (uniqueOffset locale))"

section \<open>The dataset\<close>

text \<open>
  \<^verbatim>\<open>shuffleArray\<close> copies its argument and swaps elements of the copy in place, so
  arrays live in a store: an address is an index into the list of arrays allocated so
  far, and allocation appends. The store also counts the calls of
  \<^verbatim>\<open>Math.random()\<close>; the ambient generator is the sequence \<open>Math_random\<close> of its
  outputs.
\<close>

type_synonym addr = nat

record 'a store =
  arrays :: "'a list list"
  draws :: nat

definition alloc :: "'a list \<Rightarrow> 'a store \<Rightarrow> addr \<times> 'a store" where
  "alloc xs st = (length (arrays st), st\<lparr>arrays := arrays st @ [xs]\<rparr>)"

text \<open>
  The loop \<^verbatim>\<open>for (let i = shuffled.length - 1; i > 0; i--)\<close>, entered at \<open>i\<close>. The
  destructuring swap reads both elements before it writes \<^verbatim>\<open>shuffled[i]\<close> and then
  \<^verbatim>\<open>shuffled[randomIndex]\<close>. A draw of \<^verbatim>\<open>Math.random()\<close> is below 1, so
  \<open>randomIndex\<close> is at most \<open>i\<close> and both indices are inside the array; the
  statements about the loop assume such draws (\<open>unit_interval\<close> below).
\<close>

fun shuffle_loop :: "(nat \<Rightarrow> real) \<Rightarrow> addr \<Rightarrow> nat \<Rightarrow> 'a store \<Rightarrow> 'a store" where
  "shuffle_loop Math_random shuffled 0 st = st"
| "shuffle_loop Math_random shuffled (Suc j) st =
     (let i = Suc j;
          randomIndex = nat \<lfloor>Math_random (draws st) * real (i + 1)\<rfloor>;
          xs = arrays st ! shuffled;
          st1 = st\<lparr>arrays := (arrays st)[shuffled := xs[i := xs ! randomIndex, randomIndex := xs ! i]],
                   draws := Suc (draws st)\<rparr>
      in shuffle_loop Math_random shuffled j st1)"

text \<open>
  \<^verbatim>\<open>slice(0, fin)\<close> makes a new array; a negative \<open>fin\<close> counts from the end of the
  array, as in the language.
\<close>

definition slice_js :: "'a list \<Rightarrow> int \<Rightarrow> 'a list" where
  "slice_js xs fin = (if fin < 0 then take (nat (int (length xs) + fin)) xs else take (nat fin) xs)"

text \<open>
  The optional \<^verbatim>\<open>limit\<close> is \<open>None\<close> when it is absent. The test \<^verbatim>\<open>limit ? ... : ...\<close>
  takes the first branch for a number other than \<open>0\<close>. With an empty array
  \<^verbatim>\<open>shuffled.length - 1\<close> is \<open>-1\<close> and the loop does not run, as with \<open>0\<close> here.
\<close>

definition shuffleArray ::
  "(nat \<Rightarrow> real) \<Rightarrow> addr \<Rightarrow> int option \<Rightarrow> 'a store \<Rightarrow> addr \<times> 'a store" where
  "shuffleArray Math_random array limit st =
     (let (shuffled, st1) = alloc (arrays st ! array) st;
          st2 = shuffle_loop Math_random shuffled (length (arrays st1 ! shuffled) - 1) st1
      in case limit of
           None \<Rightarrow> (shuffled, st2)
         | Some l \<Rightarrow> if l \<noteq> 0 then alloc (slice_js (arrays st2 ! shuffled) l) st2 else (shuffled, st2))"

definition NUM_OF_ITEMS :: int where
  "NUM_OF_ITEMS = 50"

text \<open>
  \<^verbatim>\<open>new Array(20).fill(0).map(() => shuffleArray(allLocales, NUM_OF_ITEMS))\<close>: the
  callback runs once per element, in order. \<^verbatim>\<open>allLocales\<close> comes from the locale
  module, so it is the address of an array already in the store.
\<close>

fun fill_map :: "nat \<Rightarrow> (nat \<Rightarrow> real) \<Rightarrow> addr \<Rightarrow> 'a store \<Rightarrow> addr list \<times> 'a store" where
  "fill_map 0 Math_random allLocales st = ([], st)"
| "fill_map (Suc n) Math_random allLocales st =
     (let (row, st1) = shuffleArray Math_random allLocales (Some NUM_OF_ITEMS) st;
          (rows, st2) = fill_map n Math_random allLocales st1
      in (row # rows, st2))"

definition arrayOfLocale :: "(nat \<Rightarrow> real) \<Rightarrow> addr \<Rightarrow> 'a store \<Rightarrow> addr list \<times> 'a store" where
  "arrayOfLocale Math_random allLocales st = fill_map 20 Math_random allLocales st"

section \<open>Notions used in the statements\<close>

text \<open>\<^verbatim>\<open>Math.random()\<close> returns a number from 0 inclusive to 1 exclusive.\<close>

definition unit_interval :: "(nat \<Rightarrow> real) \<Rightarrow> bool" where
  "unit_interval Math_random = (\<forall>k. 0 \<le> Math_random k \<and> Math_random k < 1)"

text \<open>
  \<open>ys\<close> is \<open>xs\<close> in another order: it lists the elements of \<open>xs\<close> along a sequence
  of positions in which every position of \<open>xs\<close> occurs once.
\<close>

definition shuffled_of :: "'a list \<Rightarrow> 'a list \<Rightarrow> bool" where
  "shuffled_of xs ys = (\<exists>ps. distinct ps \<and> set ps = {..<length xs} \<and> ys = map (nth xs) ps)"


text \<open>
  Two sample hosts: one on UTC, and one on the time of Paris between 25 October 2026
  and 26 March 2028, with the daylight-saving period from 28 March 2027, 01:00 UTC, to
  31 October 2027, 01:00 UTC. A local time that the change skips or repeats is read with
  the offset in force before the change.
\<close>

definition utc_host :: time_zone where
  "utc_host t isUTC = 0"

definition paris_2027 :: time_zone where
  "paris_2027 t isUTC =
     (if isUTC
      then (if 1806195600000 \<le> t \<and> t < 1824944400000 then 7200000 else 3600000)
      else (if 1806195600000 + 7200000 \<le> t \<and> t < 1824944400000 + 7200000
            then 7200000 else 3600000))"

text \<open>Sample inputs: a generator that always returns one half, and two catalogs.\<close>

definition half_draws :: "nat \<Rightarrow> real" where
  "half_draws k = 1 / 2"

definition three_locales :: "js_string store" where
  "three_locales = \<lparr>arrays = [[js ''en'', js ''fr'', js ''de'']], draws = 0\<rparr>"



section \<open>Properties of the controller\<close>

lemma run_Nil: "run [] s = s"
  by (simp add: run_def)

lemma run_Cons: "run (e # es) s = run es (step s e)"
  by (simp add: run_def)

lemma run_snoc: "run (es @ [e]) s = step (run es s) e"
  by (simp add: run_def)

lemma generation_triggerSwitch:
  "generation v (triggerSwitch type random now s) = generation v s + (if type = v then 1 else 0)"
  by (cases v; cases type) (simp_all add: triggerSwitch_def Let_def)

lemma generation_layoutEffect: "generation v (layoutEffect now s) = generation v s"
  by (cases v) (simp_all add: layoutEffect_def Let_def)

lemma generation_step:
  "generation v (step s e) = generation v s + triggers v [e]"
  by (cases e) (simp_all add: generation_triggerSwitch generation_layoutEffect)

lemma generation_run: "generation v (run es s) = generation v s + triggers v es"
proof (induction es arbitrary: s)
  case Nil
  show ?case by (simp add: run_Nil)
next
  case (Cons e es)
  have split: "triggers v (e # es) = triggers v [e] + triggers v es"
    by (cases e) simp_all
  have "generation v (run (e # es) s) = generation v (step s e) + triggers v es"
    by (simp add: run_Cons Cons.IH)
  also have "\<dots> = generation v s + triggers v [e] + triggers v es"
    by (simp only: generation_step)
  finally show ?case by (simp only: split add.assoc)
qed

lemma lastDuration_layoutEffect_other:
  assumes "activeBenchmarkRef s = Some A" and "B \<noteq> A"
  shows "lastDuration B (layoutEffect now s) = lastDuration B s"
  using assms by (cases A; cases B) (simp_all add: layoutEffect_def Let_def)

lemma layoutEffect_closed_window: "startTimeRef s = 0 \<Longrightarrow> layoutEffect now s = s"
  by (simp add: layoutEffect_def)



text \<open>
  Claim C1 (window isolation). After any sequence of triggers and commits of the two
  variants, a commit that the controller attributes to variant \<open>A\<close> (the variant
  recorded in \<^verbatim>\<open>activeBenchmarkRef\<close> when the layout effect runs) leaves the last
  duration of the other variant \<open>B\<close> as it was: \<^verbatim>\<open>nativeTime\<close> is not written by a
  commit attributed to intlayer, nor \<^verbatim>\<open>intlayerTime\<close> by one attributed to native.
\<close>

theorem window_isolation:
  assumes "s = run es initial"
    and "activeBenchmarkRef s = Some A"
    and "B \<noteq> A"
  shows "lastDuration B (layoutEffect now s) = lastDuration B s"
  using assms(2,3) by (rule lastDuration_layoutEffect_other)

theorem window_isolation_witness:
  "activeBenchmarkRef (run [Trigger Native 0.3 10, Trigger Intlayer 0.7 12, Commit 40,
      Trigger Native 0.9 50] initial) = Some Native \<and>
   Intlayer \<noteq> Native \<and>
   lastDuration Intlayer (layoutEffect 75 (run [Trigger Native 0.3 10, Trigger Intlayer 0.7 12,
      Commit 40, Trigger Native 0.9 50] initial)) = 28"
proof -
  let ?s = "run [Trigger Native 0.3 10, Trigger Intlayer 0.7 12, Commit 40,
      Trigger Native 0.9 50] initial"
  have a: "activeBenchmarkRef ?s = Some Native"
    by (simp add: run_def triggerSwitch_def layoutEffect_def initial_def Let_def)
  have b: "Intlayer \<noteq> Native" by simp
  have c: "lastDuration Intlayer ?s = 28"
    by (simp add: run_def triggerSwitch_def layoutEffect_def initial_def Let_def)
  from window_isolation [OF refl a b, of 75] c a b show ?thesis by simp
qed

text \<open>
  Claim C3 (stale commit). When the layout effect runs while \<^verbatim>\<open>startTimeRef\<close> is
  \<open>0\<close>, its guard fails and the whole state is returned as it was: neither last
  duration changes and no duration is computed. The effect has no failing path, so
  it is a total function.
\<close>

theorem stale_commit_noop:
  assumes "startTimeRef s = 0"
  shows "layoutEffect now s = s"
  using assms by (rule layoutEffect_closed_window)

theorem stale_commit_noop_witness:
  "startTimeRef initial = 0 \<and> layoutEffect 17 initial = initial \<and>
   nativeTime (layoutEffect 17 initial) = 0 \<and> intlayerTime (layoutEffect 17 initial) = 0"
proof -
  have h: "startTimeRef initial = 0" by (simp add: initial_def)
  from stale_commit_noop [OF h, of 17] h show ?thesis by (simp add: initial_def)
qed

text \<open>
  Claim C4 (monotonic generation). Starting from the initial state, after any sequence
  of events the generation of a variant is the number of triggers of that variant in
  the sequence; one trigger adds exactly one, and no event lowers the counter.
\<close>

theorem generation_counts_triggers:
  "generation v (run es initial) = triggers v es \<and>
   generation v (triggerSwitch v random now s) = generation v s + 1 \<and>
   generation v s \<le> generation v (step s e)"
proof -
  have "generation v initial = 0"
    by (cases v) (simp_all add: initial_def)
  then have "generation v (run es initial) = triggers v es"
    by (simp add: generation_run)
  moreover have "generation v (triggerSwitch v random now s) = generation v s + 1"
    by (simp add: generation_triggerSwitch)
  moreover have "generation v s \<le> generation v (step s e)"
    by (simp add: generation_step)
  ultimately show ?thesis by simp
qed

theorem generation_counts_triggers_witness:
  "generation Native (run [Trigger Native 0.3 10, Commit 20, Trigger Intlayer 0.7 30,
      Trigger Native 0.6 31, Commit 50, Trigger Native 0.1 60] initial) = 3"
proof -
  have "triggers Native [Trigger Native 0.3 10, Commit 20, Trigger Intlayer 0.7 30,
      Trigger Native 0.6 31, Commit 50, Trigger Native 0.1 60] = 3"
    by simp
  with generation_counts_triggers [of Native "[Trigger Native 0.3 10, Commit 20,
      Trigger Intlayer 0.7 30, Trigger Native 0.6 31, Commit 50, Trigger Native 0.1 60]"]
  show ?thesis by simp
qed

text \<open>
  Claim C9 (single trigger), as the code has it. From the initial state, one trigger of
  the cached variant at clock reading \<open>t0\<close> followed by the next commit at reading \<open>t1\<close>
  leaves the cached variant at generation 1. Its last duration is \<open>t1 - t0\<close> when
  \<open>t0\<close> is positive, and stays \<open>0\<close> otherwise, since the effect takes a start time of
  \<open>0\<close> for a closed window. So the last duration is greater than \<open>0\<close> exactly when
  \<open>t0\<close> is positive and the clock has advanced between trigger and commit.
  Generation, display locale and last duration of the uncached variant are as they
  were.
\<close>

theorem single_trigger:
  "generation Intlayer (run [Trigger Intlayer random t0, Commit t1] initial) = 1 \<and>
   lastDuration Intlayer (run [Trigger Intlayer random t0, Commit t1] initial) =
     (if 0 < t0 then t1 - t0 else 0) \<and>
   (0 < lastDuration Intlayer (run [Trigger Intlayer random t0, Commit t1] initial)) =
     (0 < t0 \<and> t0 < t1) \<and>
   generation Native (run [Trigger Intlayer random t0, Commit t1] initial) =
     generation Native initial \<and>
   displayLocale Native (run [Trigger Intlayer random t0, Commit t1] initial) =
     displayLocale Native initial \<and>
   lastDuration Native (run [Trigger Intlayer random t0, Commit t1] initial) =
     lastDuration Native initial"
  by (simp add: run_def triggerSwitch_def layoutEffect_def initial_def Let_def)

theorem single_trigger_witness:
  "generation Intlayer (run [Trigger Intlayer 0.7 100, Commit 112.5] initial) = 1 \<and>
   lastDuration Intlayer (run [Trigger Intlayer 0.7 100, Commit 112.5] initial) = 12.5 \<and>
   0 < lastDuration Intlayer (run [Trigger Intlayer 0.7 100, Commit 112.5] initial) \<and>
   generation Native (run [Trigger Intlayer 0.7 100, Commit 112.5] initial) = 0 \<and>
   displayLocale Native (run [Trigger Intlayer 0.7 100, Commit 112.5] initial) = js ''en'' \<and>
   lastDuration Native (run [Trigger Intlayer 0.7 100, Commit 112.5] initial) = 0"
proof -
  have a: "(0::real) < 100" and b: "(100::real) < 112.5" by simp_all
  from single_trigger [of "0.7" 100 "112.5"] a b show ?thesis
    by (simp add: initial_def)
qed

text \<open>
  The claim as written fails: when the clock reads 100 both at the trigger and at the
  commit, the cached variant is at generation 1 and its last duration is \<open>0\<close>, not
  greater than \<open>0\<close>.
\<close>

theorem single_trigger_counterexample:
  "generation Intlayer (run [Trigger Intlayer 0.7 100, Commit 100] initial) = 1 \<and>
   lastDuration Intlayer (run [Trigger Intlayer 0.7 100, Commit 100] initial) = 0 \<and>
   \<not> 0 < lastDuration Intlayer (run [Trigger Intlayer 0.7 100, Commit 100] initial)"
  by (simp add: run_def triggerSwitch_def layoutEffect_def initial_def Let_def)





section \<open>Properties of the date of a card\<close>

lemma MonthFromTime_range: "0 \<le> MonthFromTime t \<and> MonthFromTime t \<le> 11"
  by (simp add: MonthFromTime_def Let_def)

lemma MakeDay_DateFromTime:
  "MakeDay (YearFromTime t) (MonthFromTime t) (DateFromTime t + n) = Day t + n"
proof -
  have r: "0 \<le> MonthFromTime t" "MonthFromTime t \<le> 11"
    using MonthFromTime_range by simp_all
  then have d: "MonthFromTime t div 12 = 0" and m: "MonthFromTime t mod 12 = MonthFromTime t"
    by simp_all
  show ?thesis
    unfolding MakeDay_def DateFromTime_def Let_def d m InLeapYear_def DayWithinYear_def
    using r by auto
qed

lemma setDate_getDate:
  "setDate LocalTZA t (getDate LocalTZA t + n) =
     TimeClip (UTC LocalTZA (LocalTime LocalTZA t + n * msPerDay))"
proof -
  let ?tl = "LocalTime LocalTZA t"
  have "MakeDate (MakeDay (YearFromTime ?tl) (MonthFromTime ?tl) (DateFromTime ?tl + n))
      (TimeWithinDay ?tl) = (Day ?tl + n) * msPerDay + TimeWithinDay ?tl"
    by (simp add: MakeDate_def MakeDay_DateFromTime)
  also have "\<dots> = ?tl + n * msPerDay"
    by (simp add: Day_def TimeWithinDay_def algebra_simps)
  finally show ?thesis
    by (simp add: setDate_def getDate_def Let_def)
qed

lemma uniqueOffset_sum: "uniqueOffset locale = sum_list (map unat locale)"
proof -
  have "foldl (\<lambda>acc char. acc + unat char) a locale = a + sum_list (map unat locale)" for a
    by (induction "locale" arbitrary: a) simp_all
  then show ?thesis by (simp add: uniqueOffset_def)
qed

lemma dynamicDate_shift:
  "dynamicDate LocalTZA now locale renderKey =
     TimeClip (UTC LocalTZA
       (LocalTime LocalTZA now + (365 * int renderKey + int (uniqueOffset locale)) * msPerDay))"
proof -
  have "getDate LocalTZA now + int renderKey * 365 + int (uniqueOffset locale) =
      getDate LocalTZA now + (365 * int renderKey + int (uniqueOffset locale))"
    by simp
  then show ?thesis
    by (simp only: dynamicDate_def setDate_getDate)
qed

lemma dynamicDate_constant_offset:
  assumes "\<forall>t isUTC. LocalTZA t isUTC = c"
    and "\<bar>now + (365 * int renderKey + int (uniqueOffset locale)) * msPerDay\<bar>
           \<le> 8640000000000000"
  shows "dynamicDate LocalTZA now locale renderKey =
           Some (now + (365 * int renderKey + int (uniqueOffset locale)) * msPerDay)"
  using assms by (simp add: dynamicDate_shift LocalTime_def UTC_def TimeClip_def)

lemma uniqueOffset_en: "uniqueOffset (js ''en'') = 211"
  by (simp add: uniqueOffset_sum js_def)

lemma utc_host_constant: "\<forall>t isUTC. utc_host t isUTC = 0"
  by (simp add: utc_host_def)

text \<open>
  Claim C6 (offset formula), as the code has it. \<^verbatim>\<open>setDate\<close> works on the local wall
  clock: the local time of the reading \<open>now\<close> is moved forward by exactly
  \<open>365 * renderKey + uniqueOffset locale\<close> days, where \<open>uniqueOffset locale\<close> is the sum
  of the code units of the locale string, and the date is that local time read back
  as UTC with the offset of the host at the target, or invalid when this leaves the
  range of \<^verbatim>\<open>Date\<close>. On a host whose offset never changes, and inside the range,
  the instant is \<open>now\<close> plus that many days.
\<close>

theorem offset_formula:
  "dynamicDate LocalTZA now locale renderKey =
     TimeClip (UTC LocalTZA
       (LocalTime LocalTZA now + (365 * int renderKey + int (uniqueOffset locale)) * msPerDay)) \<and>
   uniqueOffset locale = sum_list (map unat locale) \<and>
   ((\<forall>t isUTC. LocalTZA t isUTC = c) \<and>
    \<bar>now + (365 * int renderKey + int (uniqueOffset locale)) * msPerDay\<bar> \<le> 8640000000000000
    \<longrightarrow> dynamicDate LocalTZA now locale renderKey =
          Some (now + (365 * int renderKey + int (uniqueOffset locale)) * msPerDay))"
  using dynamicDate_shift uniqueOffset_sum dynamicDate_constant_offset by blast

theorem offset_formula_witness:
  "(\<forall>t isUTC. utc_host t isUTC = 0) \<and>
   \<bar>1793620800000 + (365 * int 2 + int (uniqueOffset (js ''en''))) * msPerDay\<bar>
     \<le> 8640000000000000 \<and>
   dynamicDate utc_host 1793620800000 (js ''en'') 2 = Some (1793620800000 + 941 * 86400000)"
proof -
  have a: "\<forall>t isUTC. utc_host t isUTC = 0" by (rule utc_host_constant)
  have b: "\<bar>1793620800000 + (365 * int 2 + int (uniqueOffset (js ''en''))) * msPerDay\<bar>
      \<le> 8640000000000000"
    by (simp add: uniqueOffset_en msPerDay_def)
  from offset_formula [of utc_host 1793620800000 "js ''en''" 2 0] a b
  have "dynamicDate utc_host 1793620800000 (js ''en'') 2 =
      Some (1793620800000 + (365 * int 2 + int (uniqueOffset (js ''en''))) * msPerDay)"
    by blast
  then have "dynamicDate utc_host 1793620800000 (js ''en'') 2 =
      Some (1793620800000 + 941 * 86400000)"
    by (simp add: uniqueOffset_en msPerDay_def)
  with a b show ?thesis by blast
qed

text \<open>
  The claim as written fails. On the Paris host, the reading of 2 November 2026, 12:00
  UTC, with locale \<^verbatim>\<open>en\<close> (offset 211 days) at generation 0 gives a date one hour short
  of the reading plus 211 days, because the target lies in the daylight-saving
  period. On the UTC host, the same reading at generation 273916 gives an invalid
  date.
\<close>

theorem offset_formula_counterexample:
  "dynamicDate paris_2027 1793620800000 (js ''en'') 0 = Some 1811847600000 \<and>
   (1811847600000::int) \<noteq> 1793620800000 + (365 * 0 + 211) * 86400000 \<and>
   dynamicDate utc_host 1793620800000 (js ''en'') 273916 = None"
  by (simp add: dynamicDate_shift uniqueOffset_en LocalTime_def UTC_def TimeClip_def
      paris_2027_def utc_host_def msPerDay_def)

text \<open>
  Claim C5 (determinism), as the code has it. The card starts from \<^verbatim>\<open>new Date()\<close>, so
  the date depends on the wall-clock reading (and on the time zone of the host) as
  well as on the locale and the generation. Locale and generation enter only through
  the offset in days, which is the same in every evaluation: two pairs with the same
  offset give the same date at the same reading. On a host whose offset never
  changes, and inside the range of \<^verbatim>\<open>Date\<close>, two evaluations with the same locale
  and generation agree exactly when their clock readings agree.
\<close>

theorem date_follows_clock:
  "(365 * int g1 + int (uniqueOffset l1) = 365 * int g2 + int (uniqueOffset l2) \<longrightarrow>
      dynamicDate LocalTZA now l1 g1 = dynamicDate LocalTZA now l2 g2) \<and>
   ((\<forall>t isUTC. LocalTZA t isUTC = c) \<and>
    \<bar>now1 + (365 * int renderKey + int (uniqueOffset locale)) * msPerDay\<bar> \<le> 8640000000000000 \<and>
    \<bar>now2 + (365 * int renderKey + int (uniqueOffset locale)) * msPerDay\<bar> \<le> 8640000000000000
    \<longrightarrow> (dynamicDate LocalTZA now1 locale renderKey = dynamicDate LocalTZA now2 locale renderKey)
          = (now1 = now2))"
proof -
  have "dynamicDate LocalTZA now l1 g1 = dynamicDate LocalTZA now l2 g2"
    if "365 * int g1 + int (uniqueOffset l1) = 365 * int g2 + int (uniqueOffset l2)"
    using that by (simp only: dynamicDate_shift)
  moreover have "(dynamicDate LocalTZA now1 locale renderKey =
      dynamicDate LocalTZA now2 locale renderKey) = (now1 = now2)"
    if "\<forall>t isUTC. LocalTZA t isUTC = c"
      and "\<bar>now1 + (365 * int renderKey + int (uniqueOffset locale)) * msPerDay\<bar>
        \<le> 8640000000000000"
      and "\<bar>now2 + (365 * int renderKey + int (uniqueOffset locale)) * msPerDay\<bar>
        \<le> 8640000000000000"
    by (simp add: dynamicDate_constant_offset [OF that(1,2)]
        dynamicDate_constant_offset [OF that(1,3)])
  ultimately show ?thesis by blast
qed

theorem date_follows_clock_witness:
  "(\<forall>t isUTC. utc_host t isUTC = 0) \<and>
   \<bar>1793620800000 + (365 * int 1 + int (uniqueOffset (js ''en''))) * msPerDay\<bar>
     \<le> 8640000000000000 \<and>
   \<bar>1793620800001 + (365 * int 1 + int (uniqueOffset (js ''en''))) * msPerDay\<bar>
     \<le> 8640000000000000 \<and>
   365 * int 1 + int (uniqueOffset (js ''en'')) = 365 * int 1 + int (uniqueOffset (js ''ne'')) \<and>
   dynamicDate utc_host 1793620800000 (js ''en'') 1 =
     dynamicDate utc_host 1793620800000 (js ''ne'') 1 \<and>
   (dynamicDate utc_host 1793620800000 (js ''en'') 1 =
      dynamicDate utc_host 1793620800001 (js ''en'') 1) = ((1793620800000::int) = 1793620800001)"
proof -
  have a: "\<forall>t isUTC. utc_host t isUTC = 0" by (rule utc_host_constant)
  have b: "\<bar>1793620800000 + (365 * int 1 + int (uniqueOffset (js ''en''))) * msPerDay\<bar>
      \<le> 8640000000000000"
    by (simp add: uniqueOffset_en msPerDay_def)
  have c: "\<bar>1793620800001 + (365 * int 1 + int (uniqueOffset (js ''en''))) * msPerDay\<bar>
      \<le> 8640000000000000"
    by (simp add: uniqueOffset_en msPerDay_def)
  have d: "365 * int 1 + int (uniqueOffset (js ''en'')) =
      365 * int 1 + int (uniqueOffset (js ''ne''))"
    by (simp add: uniqueOffset_sum js_def)
  from date_follows_clock [of 1 "js ''en''" 1 "js ''ne''" utc_host 1793620800000 0
      1793620800000 1 "js ''en''" 1793620800001] a b c d
  show ?thesis by blast
qed

text \<open>
  The claim as written fails: on the UTC host, one millisecond apart, the same locale
  and generation give two different dates.
\<close>

theorem determinism_counterexample:
  "dynamicDate utc_host 1793620800000 (js ''en'') 1 \<noteq>
   dynamicDate utc_host 1793620800001 (js ''en'') 1"
  by (simp add: dynamicDate_shift uniqueOffset_en LocalTime_def UTC_def TimeClip_def
      utc_host_def msPerDay_def)

section \<open>Properties of the dataset\<close>

lemma shuffled_of_length: "shuffled_of xs ys \<Longrightarrow> length ys = length xs"
proof -
  assume "shuffled_of xs ys"
  then obtain ps where ps: "distinct ps" "set ps = {..<length xs}" "ys = map (nth xs) ps"
    by (auto simp: shuffled_of_def)
  from ps(1) have "length ps = card (set ps)" by (simp add: distinct_card)
  with ps(2,3) show ?thesis by simp
qed

lemma shuffled_of_refl: "shuffled_of xs xs"
  unfolding shuffled_of_def
  by (rule exI [of _ "[0..<length xs]"]) (simp add: map_nth atLeast_upt)

lemma shuffled_of_swap:
  assumes "i < length xs" and "r < length xs"
  shows "shuffled_of xs (xs[i := xs ! r, r := xs ! i])"
proof -
  let ?id = "[0..<length xs]"
  let ?ps = "?id[i := ?id ! r, r := ?id ! i]"
  have m: "mset ?ps = mset ?id"
    by (rule mset_swap) (simp_all add: assms)
  have "distinct ?id" by simp
  with m have d: "distinct ?ps"
    by (simp only: mset_eq_imp_distinct_iff [OF m])
  have s: "set ?ps = {..<length xs}"
    using mset_eq_setD [OF m] by (simp add: atLeast_upt)
  have "map (nth xs) ?ps = (map (nth xs) ?id)[i := xs ! r, r := xs ! i]"
    using assms by (simp add: map_update)
  then have e: "xs[i := xs ! r, r := xs ! i] = map (nth xs) ?ps"
    by (simp add: map_nth)
  from d s e show ?thesis
    unfolding shuffled_of_def by blast
qed

lemma shuffled_of_trans:
  assumes "shuffled_of xs ys" and "shuffled_of ys zs"
  shows "shuffled_of xs zs"
proof -
  from assms(1) obtain ps where ps: "distinct ps" "set ps = {..<length xs}" "ys = map (nth xs) ps"
    by (auto simp: shuffled_of_def)
  from assms(2) obtain qs where qs: "distinct qs" "set qs = {..<length ys}" "zs = map (nth ys) qs"
    by (auto simp: shuffled_of_def)
  have len: "length ps = length xs" "length ys = length xs"
    using shuffled_of_length [OF assms(1)] ps(3) by simp_all
  have inj: "inj_on (nth ps) (set qs)"
    by (rule inj_on_nth [OF ps(1)]) (simp add: qs(2) len)
  have d: "distinct (map (nth ps) qs)"
    by (simp add: distinct_map qs(1) inj)
  have "nth ps ` {..<length ps} = set ps"
    by (auto simp: set_conv_nth)
  then have s: "set (map (nth ps) qs) = {..<length xs}"
    by (simp add: qs(2) len ps(2))
  have "zs = map (nth xs) (map (nth ps) qs)"
    using qs(2) by (simp add: qs(3) ps(3) len)
  with d s show ?thesis
    unfolding shuffled_of_def by blast
qed

lemma randomIndex_le:
  assumes "0 \<le> r" and "r < 1"
  shows "nat \<lfloor>r * real (i + 1)\<rfloor> \<le> i"
proof -
  have "r * real (i + 1) < real (i + 1)"
    using assms by simp
  then have "\<lfloor>r * real (i + 1)\<rfloor> < int (i + 1)"
    by (simp add: floor_less_iff)
  then show ?thesis by simp
qed

lemma shuffle_loop_inv:
  assumes "unit_interval rnd" and "p < length (arrays st)"
    and "j < length (arrays st ! p) \<or> j = 0"
  shows "\<exists>ys. shuffled_of (arrays st ! p) ys \<and>
           shuffle_loop rnd p j st = st\<lparr>arrays := (arrays st)[p := ys], draws := draws st + j\<rparr>"
  using assms(2,3)
proof (induction j arbitrary: st)
  case 0
  have "st = st\<lparr>arrays := (arrays st)[p := arrays st ! p], draws := draws st + 0\<rparr>"
    by simp
  then show ?case
    using shuffled_of_refl [of "arrays st ! p"] by (auto simp del: list_update_id)
next
  case (Suc j)
  let ?xs = "arrays st ! p"
  let ?r = "nat \<lfloor>rnd (draws st) * real (Suc j + 1)\<rfloor>"
  let ?xs1 = "?xs[Suc j := ?xs ! ?r, ?r := ?xs ! Suc j]"
  let ?st1 = "st\<lparr>arrays := (arrays st)[p := ?xs1], draws := Suc (draws st)\<rparr>"
  from Suc.prems have i: "Suc j < length ?xs" by simp
  have "?r \<le> Suc j"
    using assms(1) by (intro randomIndex_le) (simp_all add: unit_interval_def)
  with i have r: "?r < length ?xs" by simp
  have sw: "shuffled_of ?xs ?xs1"
    using i r by (rule shuffled_of_swap)
  have p1: "p < length (arrays ?st1)" using Suc.prems by simp
  have x1: "arrays ?st1 ! p = ?xs1" using Suc.prems by simp
  have "length (arrays ?st1 ! p) = length ?xs"
    by (simp only: x1 length_list_update)
  with i have "j < length (arrays ?st1 ! p) \<or> j = 0" by linarith
  from Suc.IH [OF p1 this] obtain ys where
    ys: "shuffled_of ?xs1 ys"
      "shuffle_loop rnd p j ?st1 = ?st1\<lparr>arrays := (arrays ?st1)[p := ys], draws := draws ?st1 + j\<rparr>"
    unfolding x1 by blast
  have "shuffle_loop rnd p (Suc j) st = shuffle_loop rnd p j ?st1"
    by (simp add: Let_def)
  also have "\<dots> = st\<lparr>arrays := (arrays st)[p := ys], draws := draws st + Suc j\<rparr>"
    unfolding ys(2) using Suc.prems by simp
  finally show ?case
    using shuffled_of_trans [OF sw ys(1)] by blast
qed

lemma shuffleArray_result:
  assumes "unit_interval rnd" and "array < length (arrays st)"
  shows "\<exists>ys. shuffled_of (arrays st ! array) ys \<and>
           shuffleArray rnd array limit st =
             (if limit = None \<or> limit = Some 0
              then (length (arrays st),
                    \<lparr>arrays = arrays st @ [ys],
                     draws = draws st + (length (arrays st ! array) - 1)\<rparr>)
              else (Suc (length (arrays st)),
                    \<lparr>arrays = arrays st @ [ys, slice_js ys (the limit)],
                     draws = draws st + (length (arrays st ! array) - 1)\<rparr>))"
proof -
  let ?xs = "arrays st ! array"
  let ?p = "length (arrays st)"
  let ?st1 = "st\<lparr>arrays := arrays st @ [?xs]\<rparr>"
  have a: "alloc ?xs st = (?p, ?st1)" by (simp add: alloc_def)
  have x1: "arrays ?st1 ! ?p = ?xs" by simp
  have "?p < length (arrays ?st1)" by simp
  moreover have "length (arrays ?st1 ! ?p) - 1 < length (arrays ?st1 ! ?p) \<or>
      length (arrays ?st1 ! ?p) - 1 = 0"
    by (cases "?xs") simp_all
  ultimately obtain ys where ys: "shuffled_of ?xs ys"
    "shuffle_loop rnd ?p (length ?xs - 1) ?st1 =
       ?st1\<lparr>arrays := (arrays ?st1)[?p := ys], draws := draws ?st1 + (length ?xs - 1)\<rparr>"
    using shuffle_loop_inv [OF assms(1), of ?p ?st1 "length (arrays ?st1 ! ?p) - 1"]
    unfolding x1 by blast
  have st2: "shuffle_loop rnd ?p (length ?xs - 1) ?st1 =
      \<lparr>arrays = arrays st @ [ys], draws = draws st + (length ?xs - 1)\<rparr>"
    unfolding ys(2) by simp
  have "shuffleArray rnd array limit st =
      (if limit = None \<or> limit = Some 0
       then (?p, \<lparr>arrays = arrays st @ [ys], draws = draws st + (length ?xs - 1)\<rparr>)
       else (Suc ?p, \<lparr>arrays = arrays st @ [ys, slice_js ys (the limit)],
                      draws = draws st + (length ?xs - 1)\<rparr>))"
    unfolding shuffleArray_def a Let_def prod.case x1 st2
    by (cases limit) (simp_all add: alloc_def)
  with ys(1) show ?thesis by blast
qed


lemma fill_map_result:
  assumes "unit_interval rnd" and "array < length (arrays st)"
    and "fill_map n rnd array st = (rows, st')"
  shows "length rows = n \<and> (\<exists>ext. arrays st' = arrays st @ ext) \<and>
         (\<forall>row\<in>set rows. length (arrays st) \<le> row \<and> row < length (arrays st') \<and>
            (\<exists>ys. shuffled_of (arrays st ! array) ys \<and> arrays st' ! row = slice_js ys NUM_OF_ITEMS))"
  using assms(2,3)
proof (induction n arbitrary: st rows st')
  case 0
  then show ?case by simp
next
  case (Suc n)
  let ?H = "arrays st"
  from shuffleArray_result [OF assms(1) Suc.prems(1), of "Some NUM_OF_ITEMS"]
  obtain ys st1 where ys: "shuffled_of (?H ! array) ys"
    and st1: "shuffleArray rnd array (Some NUM_OF_ITEMS) st = (Suc (length ?H), st1)"
    and a1: "arrays st1 = ?H @ [ys, slice_js ys NUM_OF_ITEMS]"
    by (auto simp: NUM_OF_ITEMS_def)
  obtain rows1 st2 where rest: "fill_map n rnd array st1 = (rows1, st2)"
    by (cases "fill_map n rnd array st1")
  from Suc.prems(2) have rows: "rows = Suc (length ?H) # rows1" and st': "st' = st2"
    by (simp_all add: st1 rest)
  have arr1: "array < length (arrays st1)" using Suc.prems(1) by (simp add: a1)
  have cat1: "arrays st1 ! array = ?H ! array"
    using Suc.prems(1) by (simp add: a1 nth_append)
  from Suc.IH [OF arr1 rest] obtain ext where
    len: "length rows1 = n" and ext: "arrays st2 = arrays st1 @ ext" and
    each: "\<forall>row\<in>set rows1. length (arrays st1) \<le> row \<and> row < length (arrays st2) \<and>
            (\<exists>ys. shuffled_of (?H ! array) ys \<and> arrays st2 ! row = slice_js ys NUM_OF_ITEMS)"
    unfolding cat1 by blast
  have all: "arrays st2 = ?H @ ([ys, slice_js ys NUM_OF_ITEMS] @ ext)"
    by (simp add: ext a1)
  have first: "arrays st2 ! Suc (length ?H) = slice_js ys NUM_OF_ITEMS"
    by (simp add: all nth_append)
  have "length rows = Suc n" by (simp add: rows len)
  moreover have "\<exists>ext. arrays st' = ?H @ ext" unfolding st' all by blast
  moreover have "\<forall>row\<in>set rows. length ?H \<le> row \<and> row < length (arrays st') \<and>
      (\<exists>ys. shuffled_of (?H ! array) ys \<and> arrays st' ! row = slice_js ys NUM_OF_ITEMS)"
  proof
    fix row assume "row \<in> set rows"
    then consider "row = Suc (length ?H)" | "row \<in> set rows1" by (auto simp: rows)
    then show "length ?H \<le> row \<and> row < length (arrays st') \<and>
      (\<exists>ys. shuffled_of (?H ! array) ys \<and> arrays st' ! row = slice_js ys NUM_OF_ITEMS)"
    proof cases
      case 1
      then show ?thesis using ys first by (auto simp: st' all)
    next
      case 2
      with each have "length (arrays st1) \<le> row \<and> row < length (arrays st2) \<and>
          (\<exists>ys. shuffled_of (?H ! array) ys \<and> arrays st2 ! row = slice_js ys NUM_OF_ITEMS)"
        by blast
      then show ?thesis by (simp add: st' a1)
    qed
  qed
  ultimately show ?case by blast
qed

lemma unit_half: "unit_interval half_draws"
  by (simp add: unit_interval_def half_draws_def)

lemma arrayOfLocale_rows:
  assumes "unit_interval rnd" and "allLocales < length (arrays st)"
    and "arrayOfLocale rnd allLocales st = (rows, st')"
  shows "length rows = 20"
    and "\<exists>ext. arrays st' = arrays st @ ext"
    and "row \<in> set rows \<Longrightarrow> length (arrays st) \<le> row"
    and "row \<in> set rows \<Longrightarrow>
           \<exists>ys. shuffled_of (arrays st ! allLocales) ys \<and> arrays st' ! row = slice_js ys NUM_OF_ITEMS"
  using fill_map_result [OF assms(1,2), of 20 rows st'] assms(3)
  unfolding arrayOfLocale_def by blast+









lemma short_catalog_rows:
  assumes "unit_interval rnd" and "allLocales < length (arrays st)"
    and "int (length (arrays st ! allLocales)) < NUM_OF_ITEMS"
    and "arrayOfLocale rnd allLocales st = (rows, st')"
    and "row \<in> set rows"
  shows "\<exists>ps. distinct ps \<and> set ps = {..<length (arrays st ! allLocales)} \<and>
           arrays st' ! row = map (nth (arrays st ! allLocales)) ps \<and>
           length (arrays st' ! row) = length (arrays st ! allLocales)"
proof -
  have pos: "0 < NUM_OF_ITEMS" by (simp add: NUM_OF_ITEMS_def)
  from arrayOfLocale_rows(4) [OF assms(1,2,4,5)] obtain ys where
    ys: "shuffled_of (arrays st ! allLocales) ys" and r: "arrays st' ! row = slice_js ys NUM_OF_ITEMS"
    by blast
  from ys obtain ps where ps: "distinct ps" "set ps = {..<length (arrays st ! allLocales)}"
    "ys = map (nth (arrays st ! allLocales)) ps"
    by (auto simp: shuffled_of_def)
  have len: "length ys = length (arrays st ! allLocales)" using ys by (rule shuffled_of_length)
  have "slice_js ys NUM_OF_ITEMS = ys"
    using pos assms(3) len by (simp add: slice_js_def)
  with ps len r show ?thesis by auto
qed

text \<open>
  Claim C7 (oversized batch), as the code has it. Nothing compares \<open>NUM_OF_ITEMS\<close>
  with the size of the catalog. When the catalog is shorter, generation still returns
  its 20 batches, and every batch is the whole catalog in some order, shorter than
  \<open>NUM_OF_ITEMS\<close>.
\<close>

theorem oversized_batch_not_rejected:
  assumes "unit_interval rnd" and "allLocales < length (arrays st)"
    and "int (length (arrays st ! allLocales)) < NUM_OF_ITEMS"
    and "arrayOfLocale rnd allLocales st = (rows, st')"
  shows "length rows = 20 \<and>
    (\<forall>row\<in>set rows. \<exists>ps. distinct ps \<and> set ps = {..<length (arrays st ! allLocales)} \<and>
        arrays st' ! row = map (nth (arrays st ! allLocales)) ps \<and>
        length (arrays st' ! row) = length (arrays st ! allLocales))"
  using arrayOfLocale_rows(1) [OF assms(1,2,4)] short_catalog_rows [OF assms] by blast

theorem oversized_batch_not_rejected_witness:
  "unit_interval half_draws \<and> 0 < length (arrays three_locales) \<and>
   int (length (arrays three_locales ! 0)) < NUM_OF_ITEMS \<and>
   length (fst (arrayOfLocale half_draws 0 three_locales)) = 20"
proof -
  have a: "unit_interval half_draws" by (rule unit_half)
  have b: "0 < length (arrays three_locales)" by (simp add: three_locales_def)
  have c: "int (length (arrays three_locales ! 0)) < NUM_OF_ITEMS"
    by (simp add: three_locales_def NUM_OF_ITEMS_def)
  have d: "arrayOfLocale half_draws 0 three_locales =
      (fst (arrayOfLocale half_draws 0 three_locales), snd (arrayOfLocale half_draws 0 three_locales))"
    by simp
  from oversized_batch_not_rejected [OF a b c d] a b c show ?thesis by blast
qed

text \<open>
  The claim as written fails: with a catalog of three locales the dataset is produced,
  and its first batch has three elements where \<open>NUM_OF_ITEMS\<close> is 50.
\<close>

theorem oversized_batch_counterexample:
  "length (fst (arrayOfLocale half_draws 0 three_locales)) = 20 \<and>
   length (arrays (snd (arrayOfLocale half_draws 0 three_locales)) !
     (fst (arrayOfLocale half_draws 0 three_locales) ! 0)) = 3 \<and>
   3 < NUM_OF_ITEMS"
proof -
  let ?rows = "fst (arrayOfLocale half_draws 0 three_locales)"
  let ?st' = "snd (arrayOfLocale half_draws 0 three_locales)"
  have a: "unit_interval half_draws" by (rule unit_half)
  have b: "0 < length (arrays three_locales)" by (simp add: three_locales_def)
  have c: "int (length (arrays three_locales ! 0)) < NUM_OF_ITEMS"
    by (simp add: three_locales_def NUM_OF_ITEMS_def)
  have d: "arrayOfLocale half_draws 0 three_locales = (?rows, ?st')" by simp
  have n: "length ?rows = 20" by (rule arrayOfLocale_rows(1) [OF a b d])
  then have "?rows ! 0 \<in> set ?rows" by simp
  from short_catalog_rows [OF a b c d this]
  have "length (arrays ?st' ! (?rows ! 0)) = length (arrays three_locales ! 0)" by blast
  then have "length (arrays ?st' ! (?rows ! 0)) = 3" by (simp add: three_locales_def)
  with n show ?thesis by (simp add: NUM_OF_ITEMS_def)
qed

end
